theory Spec2Isabelle
  imports Main "HOL-Library.Sublist" "HOL-Library.Char_ord" "HOL-Library.List_Lexorder"
    "HOL-Library.AList"
begin

section \<open>Data\<close>

text \<open>
  An article is the JSON object the feed returns, read only through \<^verbatim>\<open>dict.get\<close>:
  an association list from field names to string values. A missing field is a missing key.
  Keys, URLs and file names are byte strings (only their equality and order are used);
  generated post text is a list of Unicode code points, because the program measures its
  length.
\<close>

type_synonym article = "(string \<times> string) list"

type_synonym ustr = "nat list"

datatype error =
    IntegrityError
  | OperationalError
  | TypeError
  | HTTPError
  | ConnectionError
  | PostGenerationError
  | LLMError

text \<open>One row of table \<^verbatim>\<open>published_articles\<close> (main.py, lines 30-36).\<close>

record published_row =
  row_id :: nat
  row_url :: string
  row_title :: "string option"
  row_linkedin_post_id :: string
  row_published_at :: string

text \<open>
  A \<^verbatim>\<open>datetime\<close> value: naive (no tzinfo) or aware. The integer is the number of
  microseconds since 1970-01-01T00:00:00, of the wall clock for a naive value and of the
  UTC instant for an aware one.
\<close>

datatype pydatetime = Naive int | Aware int

text \<open>The observable effects of a run, in the order they happen.\<close>

datatype effect =
    Http_get_articles string
  | Http_get_userinfo string
  | Llm_invoke string string string
  | Http_post_ugcPosts string string ustr string
  | Db_backup string
  | Db_insert string "string option" string

text \<open>
  The files the program owns: \<^verbatim>\<open>published.db\<close> (\<open>None\<close> while the table does not
  exist), the directory \<^verbatim>\<open>backups\<close> (file name and content), and the effects so far.
\<close>

record state =
  db :: "published_row list option"
  backups :: "(string \<times> published_row list) list"
  trace :: "effect list"

text \<open>
  What the program reads from outside: the two environment variables, the clocks, the
  library parser \<^verbatim>\<open>datetime.fromisoformat\<close> (\<open>None\<close> is its ValueError), and the
  answers of the three HTTP endpoints and of the language-model workflow.
\<close>

record env =
  LINKEDIN_ACCESS_TOKEN :: "string option"
  ARTICLES_API_URL :: "string option"
  fromisoformat :: "string \<Rightarrow> pydatetime option"
  strftime_now :: string
  sqlite_now :: string
  get_articles :: "string \<Rightarrow> error + article list option"
  get_userinfo :: "string \<Rightarrow> error + string"
  workflow_invoke :: "string \<Rightarrow> string \<Rightarrow> string \<Rightarrow> ustr list \<Rightarrow> error + ustr"
  post_ugcPosts :: "string \<Rightarrow> string \<Rightarrow> ustr \<Rightarrow> string \<Rightarrow> error + (string \<times> string) list"

datatype outcome = Return int | Raise error

section \<open>The ledger (main.py, lines 25-77)\<close>

definition dict_get_default :: "(string \<times> string) list \<Rightarrow> string \<Rightarrow> string \<Rightarrow> string" where
  "dict_get_default d k dflt = (case map_of d k of None \<Rightarrow> dflt | Some v \<Rightarrow> v)"

definition init_db :: "state \<Rightarrow> state" where
  "init_db s = (case db s of None \<Rightarrow> s\<lparr>db := Some []\<rparr> | Some rows \<Rightarrow> s)"

definition backup_name :: "string \<Rightarrow> string" where
  "backup_name timestamp = ''published_'' @ timestamp @ ''.db''"

text \<open>The glob pattern \<^verbatim>\<open>published_*.db\<close>.\<close>

definition glob_published :: "string \<Rightarrow> bool" where
  "glob_published n \<longleftrightarrow>
     13 \<le> length n \<and> take 10 n = ''published_'' \<and> drop (length n - 3) n = ''.db''"

text \<open>
  \<^verbatim>\<open>backup_db\<close>; the argument is \<^verbatim>\<open>datetime.now().strftime("%Y%m%d_%H%M%S")\<close>.
  \<^verbatim>\<open>copy2\<close> overwrites a file of the same name; \<^verbatim>\<open>sorted(..., reverse=True)\<close> of
  the distinct names of a directory is the ascending sort reversed.
\<close>

definition backup_db :: "string \<Rightarrow> state \<Rightarrow> state" where
  "backup_db timestamp s =
     (case db s of
        None \<Rightarrow> s
      | Some rows \<Rightarrow>
          let backup_file = backup_name timestamp;
              copied = AList.update backup_file rows (backups s);
              found = rev (sort (filter glob_published (map fst copied)))
          in s\<lparr>backups := fold AList.delete (drop 5 found) copied,
               trace := trace s @ [Db_backup backup_file]\<rparr>)"

definition get_published_urls :: "state \<Rightarrow> error + string set" where
  "get_published_urls s =
     (case db s of
        None \<Rightarrow> Inl OperationalError
      | Some rows \<Rightarrow> Inr (set (map row_url rows)))"

text \<open>
  The INSERT: column \<^verbatim>\<open>url\<close> is UNIQUE, so a second row with the same url is refused with
  sqlite3.IntegrityError before the commit; \<^verbatim>\<open>id\<close> is AUTOINCREMENT and rows are never
  deleted, so the new id is one more than the largest one.
\<close>

definition save_published_article ::
  "string \<Rightarrow> string \<Rightarrow> string option \<Rightarrow> string \<Rightarrow> state \<Rightarrow> error + state" where
  "save_published_article stamp u t linkedin_post_id s =
     (case db s of
        None \<Rightarrow> Inl OperationalError
      | Some rows \<Rightarrow>
          if u \<in> set (map row_url rows) then Inl IntegrityError
          else Inr (s\<lparr>db := Some (rows @
                        [\<lparr>row_id = Suc (fold max (map row_id rows) 0), row_url = u,
                          row_title = t, row_linkedin_post_id = linkedin_post_id,
                          row_published_at = stamp\<rparr>]),
                      trace := trace s @ [Db_insert u t linkedin_post_id]\<rparr>))"

section \<open>Dates and the selection loop (main.py, lines 22, 80-87, 179-186)\<close>

definition MIN_PUBLISH_DATE :: pydatetime where
  "MIN_PUBLISH_DATE = Aware (20433 * 86400 * 1000000)"

text \<open>
  \<^verbatim>\<open>pub_date >= MIN_PUBLISH_DATE\<close>: Python orders two aware values by their UTC instants
  and two naive ones by their wall clocks, and raises TypeError for one of each.
\<close>

fun datetime_ge :: "pydatetime \<Rightarrow> pydatetime \<Rightarrow> error + bool" where
  "datetime_ge (Aware x) (Aware y) = Inr (y \<le> x)"
| "datetime_ge (Naive x) (Naive y) = Inr (y \<le> x)"
| "datetime_ge (Naive x) (Aware y) = Inl TypeError"
| "datetime_ge (Aware x) (Naive y) = Inl TypeError"

text \<open>\<^verbatim>\<open>date_str.replace("Z", "+00:00")\<close>: every occurrence is replaced.\<close>

definition replace_Z :: "string \<Rightarrow> string" where
  "replace_Z date_str = concat (map (\<lambda>c. if c = CHR ''Z'' then ''+00:00'' else [c]) date_str)"

definition parse_publish_date :: "(string \<Rightarrow> pydatetime option) \<Rightarrow> string \<Rightarrow> pydatetime option" where
  "parse_publish_date parser date_str = (if date_str = [] then None else parser (replace_Z date_str))"

text \<open>
  The loop of \<^verbatim>\<open>main\<close> that builds \<^verbatim>\<open>new_articles\<close>. \<^verbatim>\<open>a.get("link")\<close> of an article
  without link is \<^verbatim>\<open>None\<close>, which is in no set of urls. A \<^verbatim>\<open>datetime\<close> is always truthy.
\<close>

fun new_articles_loop ::
  "(string \<Rightarrow> pydatetime option) \<Rightarrow> string set \<Rightarrow> article list \<Rightarrow> article list
     \<Rightarrow> error + article list" where
  "new_articles_loop parser published_urls new_articles [] = Inr new_articles"
| "new_articles_loop parser published_urls new_articles (a # articles) =
     (if (case map_of a ''link'' of None \<Rightarrow> False | Some l \<Rightarrow> l \<in> published_urls)
      then new_articles_loop parser published_urls new_articles articles
      else case parse_publish_date parser (dict_get_default a ''publishedAt'' '''') of
             None \<Rightarrow> new_articles_loop parser published_urls new_articles articles
           | Some pub_date \<Rightarrow>
               (case datetime_ge pub_date MIN_PUBLISH_DATE of
                  Inl e \<Rightarrow> Inl e
                | Inr keep \<Rightarrow>
                    new_articles_loop parser published_urls
                      (if keep then new_articles @ [a] else new_articles) articles))"

definition select_new_articles ::
  "(string \<Rightarrow> pydatetime option) \<Rightarrow> string set \<Rightarrow> article list \<Rightarrow> error + article list" where
  "select_new_articles parser published_urls articles =
     new_articles_loop parser published_urls [] articles"

section \<open>Post text (post_generator.py, lines 81-113)\<close>

text \<open>The characters \<^verbatim>\<open>str.strip()\<close> removes: Python's Unicode whitespace.\<close>

definition isspace :: "nat \<Rightarrow> bool" where
  "isspace c \<longleftrightarrow>
     (9 \<le> c \<and> c \<le> 13) \<or> (28 \<le> c \<and> c \<le> 32) \<or> c = 133 \<or> c = 160 \<or> c = 5760 \<or>
     (8192 \<le> c \<and> c \<le> 8202) \<or> c = 8232 \<or> c = 8233 \<or> c = 8239 \<or> c = 8287 \<or> c = 12288"

definition strip :: "ustr \<Rightarrow> ustr" where
  "strip t = rev (dropWhile isspace (rev (dropWhile isspace t)))"

text \<open>
  \<^verbatim>\<open>generate_linkedin_post\<close>. The first argument is the compiled workflow's \<^verbatim>\<open>invoke\<close>:
  it raises or returns the model's text. Every exception becomes PostGenerationError.
\<close>

definition generate_linkedin_post ::
  "(string \<Rightarrow> string \<Rightarrow> string \<Rightarrow> ustr list \<Rightarrow> error + ustr) \<Rightarrow>
     string \<Rightarrow> string \<Rightarrow> string \<Rightarrow> ustr list option \<Rightarrow> error + ustr" where
  "generate_linkedin_post invoke title_str description body previous_posts =
     (case invoke title_str description body
             (case previous_posts of None \<Rightarrow> [] | Some ps \<Rightarrow> ps) of
        Inl e \<Rightarrow> Inl PostGenerationError
      | Inr post_text \<Rightarrow>
          if post_text = [] \<or> length (strip post_text) < 20 then Inl PostGenerationError
          else Inr post_text)"

section \<open>The run (main.py, lines 90-226)\<close>

definition fetch_articles :: "env \<Rightarrow> string \<Rightarrow> state \<Rightarrow> (error + article list) \<times> state" where
  "fetch_articles e api_url s =
     (case get_articles e api_url of
        Inl err \<Rightarrow> Inl err
      | Inr data \<Rightarrow> Inr (case data of None \<Rightarrow> [] | Some as \<Rightarrow> as),
      s\<lparr>trace := trace s @ [Http_get_articles api_url]\<rparr>)"

definition get_linkedin_user_id :: "env \<Rightarrow> string \<Rightarrow> state \<Rightarrow> (error + string) \<times> state" where
  "get_linkedin_user_id e access_token s =
     (get_userinfo e access_token, s\<lparr>trace := trace s @ [Http_get_userinfo access_token]\<rparr>)"

definition post_to_linkedin ::
  "env \<Rightarrow> string \<Rightarrow> string \<Rightarrow> ustr \<Rightarrow> string \<Rightarrow> state
     \<Rightarrow> (error + (string \<times> string) list) \<times> state" where
  "post_to_linkedin e access_token user_id text_str article_url s =
     (post_ugcPosts e access_token user_id text_str article_url,
      s\<lparr>trace := trace s @ [Http_post_ugcPosts access_token user_id text_str article_url]\<rparr>)"

definition create_post_text :: "env \<Rightarrow> article \<Rightarrow> state \<Rightarrow> (error + ustr) \<times> state" where
  "create_post_text e a s =
     (let title_str = dict_get_default a ''title'' '''';
          description = dict_get_default a ''description'' '''';
          body = dict_get_default a ''body'' ''''
      in (generate_linkedin_post (workflow_invoke e) title_str description body None,
          s\<lparr>trace := trace s @ [Llm_invoke title_str description body]\<rparr>))"

text \<open>
  \<^verbatim>\<open>main\<close>. It returns 0 or 1, or an exception leaves it; the second component is the
  state the run leaves behind.
\<close>

definition main :: "env \<Rightarrow> state \<Rightarrow> outcome \<times> state" where
  "main e s =
     (case LINKEDIN_ACCESS_TOKEN e of
        None \<Rightarrow> (Return 1, s)
      | Some access_token \<Rightarrow>
     (if access_token = [] then (Return 1, s) else
     (case ARTICLES_API_URL e of
        None \<Rightarrow> (Return 1, s)
      | Some articles_api_url \<Rightarrow>
     (if articles_api_url = [] then (Return 1, s) else
     (let s1 = init_db s in
     (case get_published_urls s1 of
        Inl err \<Rightarrow> (Raise err, s1)
      | Inr published_urls \<Rightarrow>
     (case fetch_articles e articles_api_url s1 of
        (Inl err, s2) \<Rightarrow> (Raise err, s2)
      | (Inr articles, s2) \<Rightarrow>
     (case select_new_articles (fromisoformat e) published_urls articles of
        Inl err \<Rightarrow> (Raise err, s2)
      | Inr [] \<Rightarrow> (Return 0, s2)
      | Inr (a # rest) \<Rightarrow>
     (case get_linkedin_user_id e access_token s2 of
        (Inl err, s3) \<Rightarrow> (Raise err, s3)
      | (Inr user_id, s3) \<Rightarrow>
     (case create_post_text e a s3 of
        (Inl err, s4) \<Rightarrow> (if err = PostGenerationError then Return 1 else Raise err, s4)
      | (Inr post_text, s4) \<Rightarrow>
     (let article_url = dict_get_default a ''link'' '''' in
     (case post_to_linkedin e access_token user_id post_text article_url s4 of
        (Inl err, s5) \<Rightarrow> (Raise err, s5)
      | (Inr result, s5) \<Rightarrow>
     (let linkedin_post_id = dict_get_default result ''id'' '''';
          s6 = backup_db (strftime_now e) s5
      in (case save_published_article (sqlite_now e) article_url (map_of a ''title'')
                 linkedin_post_id s6 of
            Inl err \<Rightarrow> (Raise err, s6)
          | Inr s7 \<Rightarrow> (Return 0, s7)))))))))))))))"

text \<open>\<^verbatim>\<open>exit(main())\<close>: an exception that leaves \<^verbatim>\<open>main\<close> ends the process with status 1.\<close>

fun exit_code :: "outcome \<Rightarrow> int" where
  "exit_code (Return n) = n"
| "exit_code (Raise err) = 1"

text \<open>The effects of one run: what it appends to the trace.\<close>

definition effects :: "env \<Rightarrow> state \<Rightarrow> effect list" where
  "effects e s = drop (length (trace s)) (trace (snd (main e s)))"

text \<open>The rows of the ledger, none while the table does not exist.\<close>

definition ledger_rows :: "state \<Rightarrow> published_row list" where
  "ledger_rows s = (case db s of None \<Rightarrow> [] | Some rows \<Rightarrow> rows)"

text \<open>
  Eligibility in the words of the specification (section 4.3): the link is not a known url,
  the publish date parses, and the parsed date is not before the cutoff.
\<close>

definition eligible :: "(string \<Rightarrow> pydatetime option) \<Rightarrow> string set \<Rightarrow> article \<Rightarrow> bool" where
  "eligible parser known a \<longleftrightarrow>
     (case map_of a ''link'' of None \<Rightarrow> True | Some l \<Rightarrow> l \<notin> known) \<and>
     (case parse_publish_date parser (dict_get_default a ''publishedAt'' '''') of
        None \<Rightarrow> False
      | Some d \<Rightarrow> datetime_ge d MIN_PUBLISH_DATE = Inr True)"

fun is_post :: "effect \<Rightarrow> bool" where
  "is_post (Http_post_ugcPosts access_token user_id post_text article_url) = True"
| "is_post other = False"

section \<open>Sample inputs\<close>

text \<open>
  The values of \<^verbatim>\<open>datetime.fromisoformat\<close> on the three date strings used below: the
  cutoff itself, one microsecond before it, and a later date without UTC offset (a naive
  value). Every other string of the samples is not a date.
\<close>

definition sample_fromisoformat :: "string \<Rightarrow> pydatetime option" where
  "sample_fromisoformat d =
     (if d = ''2025-12-11T00:00:00+00:00'' then Some (Aware (20433 * 86400 * 1000000))
      else if d = ''2025-12-10T23:59:59.999999+00:00''
        then Some (Aware (20433 * 86400 * 1000000 - 1))
      else if d = ''2025-12-12T00:00:00'' then Some (Naive (20434 * 86400 * 1000000))
      else None)"

definition article_a :: article where
  "article_a = [(''link'', ''https://example.com/a''), (''title'', ''A''),
     (''description'', ''about a''), (''body'', ''text of a''),
     (''publishedAt'', ''2025-12-11T00:00:00Z'')]"

definition article_b :: article where
  "article_b = [(''link'', ''https://example.com/b''), (''title'', ''B''),
     (''publishedAt'', ''2025-12-10T23:59:59.999999Z'')]"

definition article_naive :: article where
  "article_naive = [(''link'', ''https://example.com/n''), (''title'', ''N''),
     (''publishedAt'', ''2025-12-12T00:00:00'')]"

definition article_nolink :: article where
  "article_nolink = [(''title'', ''L''), (''publishedAt'', ''2025-12-11T00:00:00Z'')]"

text \<open>A post of fifty characters between two spaces.\<close>

definition sample_post :: ustr where
  "sample_post = 32 # replicate 50 120 @ [32]"

definition empty_state :: state where
  "empty_state = \<lparr>db = None, backups = [], trace = []\<rparr>"

text \<open>An environment in which every outside call succeeds; the feed returns A and B.\<close>

definition sample_env :: env where
  "sample_env =
     \<lparr>LINKEDIN_ACCESS_TOKEN = Some ''token'',
      ARTICLES_API_URL = Some ''https://example.com/feed'',
      fromisoformat = sample_fromisoformat,
      strftime_now = ''20251212_080000'',
      sqlite_now = ''2025-12-12 07:00:00'',
      get_articles = (\<lambda>api_url. Inr (Some [article_a, article_b])),
      get_userinfo = (\<lambda>access_token. Inr ''user1''),
      workflow_invoke = (\<lambda>title_str description body previous_posts. Inr sample_post),
      post_ugcPosts = (\<lambda>access_token user_id post_text article_url. Inr [(''id'', ''p1'')])\<rparr>"

text \<open>
  The feed that returns one article without link, and the state that the first run over it
  leaves behind when it starts from nothing.
\<close>

definition nolink_env :: env where
  "nolink_env = sample_env\<lparr>get_articles := (\<lambda>api_url. Inr (Some [article_nolink]))\<rparr>"

definition nolink_state :: state where
  "nolink_state =
     \<lparr>db = Some [\<lparr>row_id = 1, row_url = '''', row_title = Some ''L'',
                   row_linkedin_post_id = ''p1'', row_published_at = ''2025-12-12 07:00:00''\<rparr>],
      backups = [(''published_20251212_080000.db'', [])],
      trace = [Http_get_articles ''https://example.com/feed'', Http_get_userinfo ''token'',
        Llm_invoke ''L'' '''' '''', Http_post_ugcPosts ''token'' ''user1'' sample_post '''',
        Db_backup ''published_20251212_080000.db'', Db_insert '''' (Some ''L'') ''p1'']\<rparr>"

section \<open>Auxiliary facts\<close>

lemmas sample_defs = sample_env_def empty_state_def article_a_def article_b_def
  article_naive_def article_nolink_def sample_fromisoformat_def sample_post_def

lemmas run_defs = main_def effects_def fetch_articles_def get_linkedin_user_id_def
  create_post_text_def post_to_linkedin_def save_published_article_def

lemmas select_defs = select_new_articles_def parse_publish_date_def dict_get_default_def
  replace_Z_def MIN_PUBLISH_DATE_def

lemmas generate_defs = generate_linkedin_post_def strip_def isspace_def

lemma datetime_ge_Inl: "datetime_ge x y = Inl err \<Longrightarrow> err = TypeError"
  by (cases x; cases y) auto

lemma new_articles_loop_Cons:
  "new_articles_loop parser known acc (a # as) = Inr ys \<Longrightarrow>
     new_articles_loop parser known (if eligible parser known a then acc @ [a] else acc) as = Inr ys"
  by (auto simp: eligible_def [of parser known a] split: option.splits sum.splits if_splits)

lemma new_articles_loop_Inr:
  "new_articles_loop parser known acc articles = Inr ys \<Longrightarrow>
     ys = acc @ filter (eligible parser known) articles"
proof (induction articles arbitrary: acc)
  case Nil
  then show ?case by simp
next
  case (Cons a as)
  from Cons.IH [OF new_articles_loop_Cons [OF Cons.prems]] show ?case by simp
qed

lemma select_new_articles_Inr:
  "select_new_articles parser known articles = Inr ys \<Longrightarrow>
     ys = filter (eligible parser known) articles"
  unfolding select_new_articles_def by (drule new_articles_loop_Inr) simp

text \<open>
  The loop raises as soon as one candidate that passes the known-url check has a naive
  publish date, wherever it stands in the feed.
\<close>

lemma new_articles_loop_naive:
  assumes "a \<in> set articles"
    and "map_of a ''link'' = None \<or> (\<exists>l. map_of a ''link'' = Some l \<and> l \<notin> known)"
    and "parse_publish_date parser (dict_get_default a ''publishedAt'' '''') = Some (Naive t)"
  shows "new_articles_loop parser known acc articles = Inl TypeError"
  using assms(1)
proof (induction articles arbitrary: acc)
  case Nil
  then show ?case by simp
next
  case (Cons b bs)
  show ?case
  proof (cases "b = a")
    case True
    with assms(2,3) show ?thesis by (auto simp: MIN_PUBLISH_DATE_def)
  next
    case False
    with Cons.prems have "a \<in> set bs" by simp
    then have ih: "new_articles_loop parser known acc' bs = Inl TypeError" for acc'
      by (rule Cons.IH)
    show ?thesis
      by (auto simp: ih dest: datetime_ge_Inl split: option.splits sum.splits)
  qed
qed

text \<open>Without such a candidate the loop returns, and what it returns is the filter.\<close>

lemma new_articles_loop_total:
  assumes "\<And>a t. a \<in> set articles \<Longrightarrow>
             parse_publish_date parser (dict_get_default a ''publishedAt'' '''') \<noteq> Some (Naive t)"
  shows "new_articles_loop parser known acc articles =
           Inr (acc @ filter (eligible parser known) articles)"
  using assms
proof (induction articles arbitrary: acc)
  case Nil
  then show ?case by simp
next
  case (Cons a as)
  have ih: "new_articles_loop parser known acc' as =
              Inr (acc' @ filter (eligible parser known) as)" for acc'
    by (rule Cons.IH) (simp add: Cons.prems)
  show ?case
  proof (cases "parse_publish_date parser (dict_get_default a ''publishedAt'' '''')")
    case None
    then show ?thesis by (simp add: ih eligible_def [of parser known a])
  next
    case (Some d)
    with Cons.prems [of a] obtain x where d: "d = Aware x"
      by (cases d) auto
    show ?thesis using Some
      by (auto simp: ih eligible_def [of parser known a] d MIN_PUBLISH_DATE_def split: option.splits)
  qed
qed

lemma init_db_simps [simp]:
  "db (init_db s) = Some (ledger_rows s)"
  "backups (init_db s) = backups s"
  "trace (init_db s) = trace s"
  by (auto simp: init_db_def ledger_rows_def split: option.splits)

lemma get_published_urls_init [simp]:
  "get_published_urls (init_db s) = Inr (set (map row_url (ledger_rows s)))"
  by (simp add: get_published_urls_def)

lemma backup_db_simps [simp]:
  "db (backup_db stamp s) = db s"
  "db s = Some rows \<Longrightarrow> trace (backup_db stamp s) = trace s @ [Db_backup (backup_name stamp)]"
  by (auto simp: backup_db_def Let_def split: option.splits)

text \<open>
  The effects of a run are one of seven sequences; a post is for the first selected
  article, and a backup and an insert happen only after a post that was answered.
\<close>

lemma effects_shape:
  "effects e s = [] \<or>
   (\<exists>api. effects e s = [Http_get_articles api]) \<or>
   (\<exists>api tok. effects e s = [Http_get_articles api, Http_get_userinfo tok]) \<or>
   (\<exists>api tok t d b.
      effects e s = [Http_get_articles api, Http_get_userinfo tok, Llm_invoke t d b]) \<or>
   (\<exists>api tok t d b uid ptext u data a rest.
      (effects e s = [Http_get_articles api, Http_get_userinfo tok, Llm_invoke t d b,
         Http_post_ugcPosts tok uid ptext u] \<and>
       (\<exists>err. post_ugcPosts e tok uid ptext u = Inl err) \<or>
       (\<exists>r. effects e s = [Http_get_articles api, Http_get_userinfo tok, Llm_invoke t d b,
         Http_post_ugcPosts tok uid ptext u, Db_backup (backup_name (strftime_now e))] \<and>
         post_ugcPosts e tok uid ptext u = Inr r) \<or>
       (\<exists>r. effects e s = [Http_get_articles api, Http_get_userinfo tok, Llm_invoke t d b,
         Http_post_ugcPosts tok uid ptext u, Db_backup (backup_name (strftime_now e)),
         Db_insert u (map_of a ''title'') (dict_get_default r ''id'' '''')] \<and>
         post_ugcPosts e tok uid ptext u = Inr r)) \<and>
      ARTICLES_API_URL e = Some api \<and> get_articles e api = Inr data \<and>
      select_new_articles (fromisoformat e) (set (map row_url (ledger_rows s)))
        (case data of None \<Rightarrow> [] | Some as \<Rightarrow> as) = Inr (a # rest) \<and>
      generate_linkedin_post (workflow_invoke e) (dict_get_default a ''title'' '''')
        (dict_get_default a ''description'' '''') (dict_get_default a ''body'' '''') None
        = Inr ptext \<and>
      u = dict_get_default a ''link'' '''')"
proof (cases "LINKEDIN_ACCESS_TOKEN e")
  case None
  then show ?thesis by (simp add: run_defs)
next
  case (Some tok)
  note tok = this
  show ?thesis
  proof (cases "tok = [] \<or> ARTICLES_API_URL e = None \<or> ARTICLES_API_URL e = Some []")
    case True
    then show ?thesis using tok by (auto simp: run_defs split: option.splits)
  next
    case False
    then obtain api where api: "ARTICLES_API_URL e = Some api" "api \<noteq> []" "tok \<noteq> []"
      by auto
    show ?thesis
    proof (cases "get_articles e api")
      case (Inl err)
      then show ?thesis using tok api by (simp add: run_defs)
    next
      case (Inr data)
      note data = this
      show ?thesis
      proof (cases "select_new_articles (fromisoformat e) (set (map row_url (ledger_rows s)))
                      (case data of None \<Rightarrow> [] | Some as \<Rightarrow> as)")
        case (Inl err)
        then show ?thesis using tok api data by (simp add: run_defs)
      next
        case (Inr new)
        note new = this
        show ?thesis
        proof (cases new)
          case Nil
          then show ?thesis using tok api data new by (simp add: run_defs)
        next
          case (Cons a rest)
          note sel = new [unfolded Cons]
          show ?thesis
          proof (cases "get_userinfo e tok")
            case (Inl err)
            then show ?thesis using tok api data sel by (simp add: run_defs)
          next
            case (Inr uid)
            note uid = this
            let ?g = "generate_linkedin_post (workflow_invoke e) (dict_get_default a ''title'' [])
                 (dict_get_default a ''description'' []) (dict_get_default a ''body'' []) None"
            show ?thesis
            proof (cases ?g)
              case (Inl err)
              then show ?thesis using tok api data sel uid by (simp add: run_defs Let_def)
            next
              case (Inr ptext)
              note ptext = this
              let ?u = "dict_get_default a ''link'' []"
              show ?thesis
              proof (cases "post_ugcPosts e tok uid ptext ?u")
                case (Inl err)
                then show ?thesis using tok api data sel uid ptext
                  by (simp add: run_defs Let_def)
              next
                case (Inr r)
                then show ?thesis using tok api data sel uid ptext
                  by (simp add: run_defs Let_def)
              qed
            qed
          qed
        qed
      qed
    qed
  qed
qed

section \<open>Eligibility (claims C1, C9)\<close>

text \<open>
  C1. The claim: for every candidate list, the filter keeps exactly the candidates whose
  link is unknown and whose publish date parses and is not before the cutoff, and a
  candidate without a usable date is discarded without aborting the run. The code breaks
  this on a feed whose date has no UTC offset: the feed below holds one unknown article
  dated 2025-12-12T00:00:00, after the cutoff, and the loop keeps nothing: the comparison
  with the aware cutoff raises TypeError, which leaves \<^verbatim>\<open>main\<close>, and the process ends
  with status 1.
\<close>

theorem select_new_articles_naive_example:
  "select_new_articles sample_fromisoformat {} [article_naive] = Inl TypeError \<and>
   fst (main (sample_env\<lparr>get_articles := (\<lambda>api_url. Inr (Some [article_naive]))\<rparr>)
          empty_state) = Raise TypeError \<and>
   exit_code (fst (main (sample_env\<lparr>get_articles := (\<lambda>api_url. Inr (Some [article_naive]))\<rparr>)
          empty_state)) = 1"
  by (simp add: run_defs sample_defs select_defs ledger_rows_def)

text \<open>
  C9. The claim: the filter is total, also on valid ISO-8601 dates without UTC offset. The
  code is not: whenever the feed holds a candidate that passes the known-url check and
  whose date parses to a naive value, the loop raises TypeError instead of returning a
  sublist, whatever else the feed holds.
\<close>

theorem select_new_articles_naive_raises:
  assumes "a \<in> set articles"
    and "map_of a ''link'' = None \<or> (\<exists>l. map_of a ''link'' = Some l \<and> l \<notin> known)"
    and "parse_publish_date parser (dict_get_default a ''publishedAt'' '''') = Some (Naive t)"
  shows "select_new_articles parser known articles = Inl TypeError"
  unfolding select_new_articles_def using assms by (rule new_articles_loop_naive)

theorem select_new_articles_naive_raises_witness:
  "article_naive \<in> set [article_a, article_naive, article_b] \<and>
   map_of article_naive ''link'' = Some ''https://example.com/n'' \<and>
   ''https://example.com/n'' \<notin> {''https://example.com/b''} \<and>
   parse_publish_date sample_fromisoformat (dict_get_default article_naive ''publishedAt'' '''')
     = Some (Naive (20434 * 86400 * 1000000)) \<and>
   select_new_articles sample_fromisoformat {''https://example.com/b''}
     [article_a, article_naive, article_b] = Inl TypeError"
proof -
  have 1: "article_naive \<in> set [article_a, article_naive, article_b]" by simp
  have 2: "map_of article_naive ''link'' = Some ''https://example.com/n''"
    by (simp add: article_naive_def)
  have 3: "''https://example.com/n'' \<notin> {''https://example.com/b''}" by simp
  have 4: "parse_publish_date sample_fromisoformat
      (dict_get_default article_naive ''publishedAt'' '''') = Some (Naive (20434 * 86400 * 1000000))"
    by (simp add: sample_defs select_defs)
  from 2 3 have 5: "map_of article_naive ''link'' = None \<or>
      (\<exists>l. map_of article_naive ''link'' = Some l \<and> l \<notin> {''https://example.com/b''})"
    by simp
  from select_new_articles_naive_raises [OF 1 5 4] 1 2 3 4 show ?thesis by simp
qed

section \<open>Post text (claim C7)\<close>

text \<open>
  C7. \<^verbatim>\<open>generate_linkedin_post\<close> raises PostGenerationError exactly when the underlying
  call raises or the text it returns, stripped of whitespace, has fewer than 20
  characters; it raises nothing else; and whatever it returns is the text of the
  underlying call, with at least 20 characters after stripping.
\<close>

theorem generate_linkedin_post_contract:
  "(generate_linkedin_post invoke t d b pp = Inl PostGenerationError \<longleftrightarrow>
      (\<exists>err. invoke t d b (case pp of None \<Rightarrow> [] | Some ps \<Rightarrow> ps) = Inl err) \<or>
      (\<exists>x. invoke t d b (case pp of None \<Rightarrow> [] | Some ps \<Rightarrow> ps) = Inr x \<and>
           length (strip x) < 20)) \<and>
   (\<forall>err. generate_linkedin_post invoke t d b pp = Inl err \<longrightarrow> err = PostGenerationError) \<and>
   (\<forall>x. generate_linkedin_post invoke t d b pp = Inr x \<longrightarrow>
      invoke t d b (case pp of None \<Rightarrow> [] | Some ps \<Rightarrow> ps) = Inr x \<and> 20 \<le> length (strip x))"
  by (auto simp: generate_linkedin_post_def strip_def split: sum.splits if_splits)

theorem generate_linkedin_post_contract_witness:
  "generate_linkedin_post (\<lambda>t d b ps. Inr sample_post) ''A'' '''' '''' None = Inr sample_post \<and>
   20 \<le> length (strip sample_post) \<and>
   generate_linkedin_post (\<lambda>t d b ps. Inr (32 # replicate 19 120 @ [10])) ''A'' '''' '''' None
     = Inl PostGenerationError \<and>
   length (strip (32 # replicate 19 120 @ [10])) < 20 \<and>
   generate_linkedin_post (\<lambda>t d b ps. Inl LLMError) ''A'' '''' '''' None
     = Inl PostGenerationError"
proof -
  have 1: "generate_linkedin_post (\<lambda>t d b ps. Inr sample_post) ''A'' '''' '''' None
      = Inr sample_post"
    by (simp add: generate_defs sample_post_def)
  have 2: "length (strip (32 # replicate 19 120 @ [10])) < 20"
    by (simp add: generate_defs)
  have 3: "(\<exists>err. (\<lambda>t d b ps. Inl LLMError :: error + ustr) ''A'' '''' ''''
      (case None of None \<Rightarrow> [] | Some ps \<Rightarrow> ps) = Inl err)" by simp
  from generate_linkedin_post_contract
         [of "\<lambda>t d b ps. Inr sample_post" "''A''" "''''" "''''" None] 1
  have a: "20 \<le> length (strip sample_post)" by simp
  from generate_linkedin_post_contract
         [of "\<lambda>t d b ps. Inr (32 # replicate 19 120 @ [10])" "''A''" "''''" "''''" None] 2
  have b: "generate_linkedin_post (\<lambda>t d b ps. Inr (32 # replicate 19 120 @ [10]))
      ''A'' '''' '''' None = Inl PostGenerationError" by simp
  from generate_linkedin_post_contract
         [of "\<lambda>t d b ps. Inl LLMError" "''A''" "''''" "''''" None] 3
  have c: "generate_linkedin_post (\<lambda>t d b ps. Inl LLMError) ''A'' '''' '''' None
      = Inl PostGenerationError" by simp
  from 1 2 a b c show ?thesis by simp
qed

section \<open>The ledger (claim C2)\<close>

text \<open>
  C2. After \<^verbatim>\<open>save_published_article\<close> has stored a url, storing the same url again,
  with any title and post id, raises IntegrityError (the function has no handler, so the
  error reaches its caller), the stored urls contain the url, and exactly one row has it.
\<close>

theorem save_published_article_twice:
  assumes "save_published_article stamp u t p s = Inr s1"
  shows "save_published_article stamp2 u t2 p2 s1 = Inl IntegrityError \<and>
         (\<exists>urls. get_published_urls s1 = Inr urls \<and> u \<in> urls) \<and>
         length (filter (\<lambda>r. row_url r = u) (ledger_rows s1)) = 1"
proof (cases "db s")
  case None
  with assms show ?thesis by (simp add: save_published_article_def)
next
  case (Some rows)
  with assms have new: "u \<notin> set (map row_url rows)"
    by (auto simp: save_published_article_def split: if_splits)
  then have "filter (\<lambda>r. row_url r = u) rows = []"
    by (auto simp: filter_empty_conv)
  with assms Some new show ?thesis
    by (auto simp: save_published_article_def get_published_urls_def ledger_rows_def)
qed

theorem save_published_article_twice_witness:
  "save_published_article ''2025-12-12 07:00:00'' ''https://example.com/a'' (Some ''A'') ''p1''
     (init_db empty_state)
   = Inr \<lparr>db = Some [\<lparr>row_id = 1, row_url = ''https://example.com/a'', row_title = Some ''A'',
                       row_linkedin_post_id = ''p1'', row_published_at = ''2025-12-12 07:00:00''\<rparr>],
          backups = [], trace = [Db_insert ''https://example.com/a'' (Some ''A'') ''p1'']\<rparr> \<and>
   save_published_article ''2025-12-13 07:00:00'' ''https://example.com/a'' None ''p2''
     \<lparr>db = Some [\<lparr>row_id = 1, row_url = ''https://example.com/a'', row_title = Some ''A'',
                   row_linkedin_post_id = ''p1'', row_published_at = ''2025-12-12 07:00:00''\<rparr>],
      backups = [], trace = [Db_insert ''https://example.com/a'' (Some ''A'') ''p1'']\<rparr>
   = Inl IntegrityError"
proof -
  let ?s1 = "\<lparr>db = Some [\<lparr>row_id = 1, row_url = ''https://example.com/a'',
                 row_title = Some ''A'', row_linkedin_post_id = ''p1'',
                 row_published_at = ''2025-12-12 07:00:00''\<rparr>],
               backups = [], trace = [Db_insert ''https://example.com/a'' (Some ''A'') ''p1'']\<rparr>"
  have 1: "save_published_article ''2025-12-12 07:00:00'' ''https://example.com/a'' (Some ''A'')
      ''p1'' (init_db empty_state) = Inr ?s1"
    by (simp add: save_published_article_def init_db_def empty_state_def)
  from save_published_article_twice [OF 1, of "''2025-12-13 07:00:00''" None "''p2''"] 1
  show ?thesis by simp
qed

section \<open>The run: publish, then back up, then record (claims C3, C4, C5)\<close>

lemma select_new_articles_head_unknown:
  assumes "select_new_articles parser known articles = Inr (a # rest)"
    and "map_of a ''link'' = Some u"
  shows "u \<notin> known"
proof -
  from select_new_articles_Inr [OF assms(1)]
  have "a \<in> set (filter (eligible parser known) articles)"
    by (metis list.set_intros(1))
  then have "eligible parser known a" by simp
  with assms(2) show ?thesis by (simp add: eligible_def [of parser known a])
qed

lemma generate_linkedin_post_Inl:
  "generate_linkedin_post invoke t d b pp = Inl err \<Longrightarrow> err = PostGenerationError"
  by (auto simp: generate_linkedin_post_def split: sum.splits if_splits)

text \<open>
  The order of the effects, and the run that posts an article with a link. In every run, a
  row is inserted only as the last effect, right after the backup, which comes right after
  a post that LinkedIn answered, and the row carries the id of that answer. In a run that
  selects an article with link \<open>v\<close>, generates its text and posts it with answer \<open>r\<close>,
  the effects are fetch, identity, generation, post, backup, insert in that order, the
  ledger is the old one with one more row for \<open>v\<close> and the answer's id, and \<^verbatim>\<open>main\<close>
  returns 0.
\<close>

lemma record_only_after_publish:
  "(Db_insert u t p \<in> set (effects e s) \<longrightarrow>
      (\<exists>pre tok uid ptext r.
          effects e s = pre @ [Http_post_ugcPosts tok uid ptext u,
            Db_backup (backup_name (strftime_now e)), Db_insert u t p] \<and>
          post_ugcPosts e tok uid ptext u = Inr r \<and> p = dict_get_default r ''id'' '''')) \<and>
   (LINKEDIN_ACCESS_TOKEN e = Some tok \<and> tok \<noteq> [] \<and>
    ARTICLES_API_URL e = Some api \<and> api \<noteq> [] \<and>
    get_articles e api = Inr data \<and>
    select_new_articles (fromisoformat e) (set (map row_url (ledger_rows s)))
      (case data of None \<Rightarrow> [] | Some as \<Rightarrow> as) = Inr (a # rest) \<and>
    map_of a ''link'' = Some v \<and>
    get_userinfo e tok = Inr uid \<and>
    generate_linkedin_post (workflow_invoke e) (dict_get_default a ''title'' '''')
      (dict_get_default a ''description'' '''') (dict_get_default a ''body'' '''') None
      = Inr ptext \<and>
    post_ugcPosts e tok uid ptext v = Inr r \<longrightarrow>
      fst (main e s) = Return 0 \<and> exit_code (fst (main e s)) = 0 \<and>
      effects e s = [Http_get_articles api, Http_get_userinfo tok,
        Llm_invoke (dict_get_default a ''title'' '''') (dict_get_default a ''description'' '''')
          (dict_get_default a ''body'' ''''),
        Http_post_ugcPosts tok uid ptext v, Db_backup (backup_name (strftime_now e)),
        Db_insert v (map_of a ''title'') (dict_get_default r ''id'' '''')] \<and>
      db (snd (main e s)) = Some (ledger_rows s @
        [\<lparr>row_id = Suc (fold max (map row_id (ledger_rows s)) 0), row_url = v,
          row_title = map_of a ''title'', row_linkedin_post_id = dict_get_default r ''id'' '''',
          row_published_at = sqlite_now e\<rparr>]))"
proof (intro conjI impI)
  assume "Db_insert u t p \<in> set (effects e s)"
  with effects_shape [of e s]
  show "\<exists>pre tok uid ptext r.
          effects e s = pre @ [Http_post_ugcPosts tok uid ptext u,
            Db_backup (backup_name (strftime_now e)), Db_insert u t p] \<and>
          post_ugcPosts e tok uid ptext u = Inr r \<and> p = dict_get_default r ''id'' ''''"
    by (elim disjE exE conjE) auto
next
  assume h: "LINKEDIN_ACCESS_TOKEN e = Some tok \<and> tok \<noteq> [] \<and>
    ARTICLES_API_URL e = Some api \<and> api \<noteq> [] \<and>
    get_articles e api = Inr data \<and>
    select_new_articles (fromisoformat e) (set (map row_url (ledger_rows s)))
      (case data of None \<Rightarrow> [] | Some as \<Rightarrow> as) = Inr (a # rest) \<and>
    map_of a ''link'' = Some v \<and>
    get_userinfo e tok = Inr uid \<and>
    generate_linkedin_post (workflow_invoke e) (dict_get_default a ''title'' '''')
      (dict_get_default a ''description'' '''') (dict_get_default a ''body'' '''') None
      = Inr ptext \<and>
    post_ugcPosts e tok uid ptext v = Inr r"
  then have "select_new_articles (fromisoformat e) (set (map row_url (ledger_rows s)))
      (case data of None \<Rightarrow> [] | Some as \<Rightarrow> as) = Inr (a # rest)"
    and "map_of a ''link'' = Some v"
    by simp_all
  then have new: "v \<notin> set (map row_url (ledger_rows s))"
    by (rule select_new_articles_head_unknown)
  from h have link: "dict_get_default a ''link'' '''' = v"
    by (simp add: dict_get_default_def)
  from h new link show "fst (main e s) = Return 0"
    by (simp add: run_defs Let_def)
  then show "exit_code (fst (main e s)) = 0" by simp
  from h new link show "effects e s = [Http_get_articles api, Http_get_userinfo tok,
        Llm_invoke (dict_get_default a ''title'' '''') (dict_get_default a ''description'' '''')
          (dict_get_default a ''body'' ''''),
        Http_post_ugcPosts tok uid ptext v, Db_backup (backup_name (strftime_now e)),
        Db_insert v (map_of a ''title'') (dict_get_default r ''id'' '''')]"
    by (simp add: run_defs Let_def)
  from h new link show "db (snd (main e s)) = Some (ledger_rows s @
        [\<lparr>row_id = Suc (fold max (map row_id (ledger_rows s)) 0), row_url = v,
          row_title = map_of a ''title'', row_linkedin_post_id = dict_get_default r ''id'' '''',
          row_published_at = sqlite_now e\<rparr>])"
    by (simp add: run_defs Let_def)
qed

lemma sample_run:
  "fst (main sample_env empty_state) = Return 0"
  "effects sample_env empty_state =
     [Http_get_articles ''https://example.com/feed'', Http_get_userinfo ''token'',
      Llm_invoke ''A'' ''about a'' ''text of a'',
      Http_post_ugcPosts ''token'' ''user1'' sample_post ''https://example.com/a'',
      Db_backup ''published_20251212_080000.db'',
      Db_insert ''https://example.com/a'' (Some ''A'') ''p1'']"
  by (simp_all add: run_defs sample_defs select_defs generate_defs ledger_rows_def
        backup_name_def Let_def)

lemma record_only_after_publish_example:
  "select_new_articles (fromisoformat sample_env) {} [article_a, article_b] = Inr [article_a] \<and>
   Db_insert ''https://example.com/a'' (Some ''A'') ''p1'' \<in> set (effects sample_env empty_state) \<and>
   effects sample_env empty_state =
     [Http_get_articles ''https://example.com/feed'', Http_get_userinfo ''token'',
      Llm_invoke ''A'' ''about a'' ''text of a'']
     @ [Http_post_ugcPosts ''token'' ''user1'' sample_post ''https://example.com/a'',
        Db_backup ''published_20251212_080000.db'',
        Db_insert ''https://example.com/a'' (Some ''A'') ''p1''] \<and>
   exit_code (fst (main sample_env empty_state)) = 0 \<and>
   db (snd (main sample_env empty_state)) =
     Some [\<lparr>row_id = 1, row_url = ''https://example.com/a'', row_title = Some ''A'',
             row_linkedin_post_id = ''p1'', row_published_at = ''2025-12-12 07:00:00''\<rparr>]"
proof -
  have sel: "select_new_articles (fromisoformat sample_env) {} [article_a, article_b]
      = Inr [article_a]"
    by (simp add: sample_defs select_defs)
  have ins: "Db_insert ''https://example.com/a'' (Some ''A'') ''p1''
      \<in> set (effects sample_env empty_state)"
    by (simp add: sample_run)
  have hyp: "LINKEDIN_ACCESS_TOKEN sample_env = Some ''token'' \<and> ''token'' \<noteq> [] \<and>
    ARTICLES_API_URL sample_env = Some ''https://example.com/feed'' \<and>
    ''https://example.com/feed'' \<noteq> [] \<and>
    get_articles sample_env ''https://example.com/feed'' = Inr (Some [article_a, article_b]) \<and>
    select_new_articles (fromisoformat sample_env) (set (map row_url (ledger_rows empty_state)))
      (case Some [article_a, article_b] of None \<Rightarrow> [] | Some as \<Rightarrow> as) = Inr (article_a # []) \<and>
    map_of article_a ''link'' = Some ''https://example.com/a'' \<and>
    get_userinfo sample_env ''token'' = Inr ''user1'' \<and>
    generate_linkedin_post (workflow_invoke sample_env) (dict_get_default article_a ''title'' '''')
      (dict_get_default article_a ''description'' '''') (dict_get_default article_a ''body'' '''')
      None = Inr sample_post \<and>
    post_ugcPosts sample_env ''token'' ''user1'' sample_post ''https://example.com/a''
      = Inr [(''id'', ''p1'')]"
    using sel by (simp add: sample_defs generate_defs ledger_rows_def dict_get_default_def)
  note inst = record_only_after_publish [of "''https://example.com/a''" "Some ''A''" "''p1''"
      sample_env empty_state "''token''" "''https://example.com/feed''"
      "Some [article_a, article_b]" article_a "[]" "''https://example.com/a''" "''user1''"
      sample_post "[(''id'', ''p1'')]"]
  have r: "ledger_rows empty_state = []" "map_of article_a ''title'' = Some ''A''"
    "dict_get_default [(''id'', ''p1'')] ''id'' [] = ''p1''"
    "sqlite_now sample_env = ''2025-12-12 07:00:00''"
    by (simp_all add: ledger_rows_def empty_state_def article_a_def dict_get_default_def
          sample_env_def)
  from inst ins hyp have
    "db (snd (main sample_env empty_state)) = Some (ledger_rows empty_state @
        [\<lparr>row_id = Suc (fold max (map row_id (ledger_rows empty_state)) 0),
          row_url = ''https://example.com/a'', row_title = map_of article_a ''title'',
          row_linkedin_post_id = dict_get_default [(''id'', ''p1'')] ''id'' [],
          row_published_at = sqlite_now sample_env\<rparr>])"
    and "exit_code (fst (main sample_env empty_state)) = 0"
    by blast+
  then show ?thesis using sel ins
    by (simp add: r sample_run(2))
qed

text \<open>
  C3. The claim: a row is written only after an answered post, the backup comes before the
  insert, and after a run that published one article with id \<open>p\<close> the ledger has exactly
  one new row, with the article's link and \<open>p\<close>, and the run exits with 0. The code breaks
  the last part for an article without \<^verbatim>\<open>link\<close>: the loop reads the link with
  \<^verbatim>\<open>a.get("link")\<close>, which is in no set of urls, and the record reads it with
  \<^verbatim>\<open>article.get("link", "")\<close>. The first run over a feed with such an article, from
  nothing, posts it and records the empty url. The second run over the same feed selects
  the article again and posts it again, the post is answered, and then the insert raises
  IntegrityError: the ledger gains no row and the process ends with status 1.
\<close>

theorem linkless_article_posted_again:
  "main nolink_env empty_state = (Return 0, nolink_state) \<and>
   select_new_articles (fromisoformat nolink_env) (set (map row_url (ledger_rows nolink_state)))
     [article_nolink] = Inr [article_nolink] \<and>
   post_ugcPosts nolink_env ''token'' ''user1'' sample_post '''' = Inr [(''id'', ''p1'')] \<and>
   effects nolink_env nolink_state =
     [Http_get_articles ''https://example.com/feed'', Http_get_userinfo ''token'',
      Llm_invoke ''L'' '''' '''', Http_post_ugcPosts ''token'' ''user1'' sample_post '''',
      Db_backup ''published_20251212_080000.db''] \<and>
   fst (main nolink_env nolink_state) = Raise IntegrityError \<and>
   exit_code (fst (main nolink_env nolink_state)) = 1 \<and>
   ledger_rows (snd (main nolink_env nolink_state)) = ledger_rows nolink_state"
  by (simp add: nolink_env_def nolink_state_def run_defs sample_defs select_defs generate_defs
        ledger_rows_def init_db_def get_published_urls_def backup_db_def backup_name_def
        glob_published_def Let_def)

text \<open>
  C4. In a run whose text generation raises, \<^verbatim>\<open>main\<close> returns 1, the effects end with
  the generation (nothing is posted, backed up or inserted), and the rows of the ledger
  and the backups are what they were.
\<close>

theorem generation_failure_aborts:
  assumes "LINKEDIN_ACCESS_TOKEN e = Some tok" "tok \<noteq> []"
    and "ARTICLES_API_URL e = Some api" "api \<noteq> []"
    and "get_articles e api = Inr data"
    and "select_new_articles (fromisoformat e) (set (map row_url (ledger_rows s)))
           (case data of None \<Rightarrow> [] | Some as \<Rightarrow> as) = Inr (a # rest)"
    and "get_userinfo e tok = Inr uid"
    and "generate_linkedin_post (workflow_invoke e) (dict_get_default a ''title'' '''')
           (dict_get_default a ''description'' '''') (dict_get_default a ''body'' '''') None
           = Inl err"
  shows "fst (main e s) = Return 1 \<and> exit_code (fst (main e s)) = 1 \<and>
         effects e s = [Http_get_articles api, Http_get_userinfo tok,
           Llm_invoke (dict_get_default a ''title'' '''') (dict_get_default a ''description'' '''')
             (dict_get_default a ''body'' '''')] \<and>
         filter is_post (effects e s) = [] \<and>
         ledger_rows (snd (main e s)) = ledger_rows s \<and>
         backups (snd (main e s)) = backups s"
proof -
  from assms(8) have "err = PostGenerationError"
    by (rule generate_linkedin_post_Inl)
  with assms have m: "fst (main e s) = Return 1"
    and f: "effects e s = [Http_get_articles api, Http_get_userinfo tok,
           Llm_invoke (dict_get_default a ''title'' '''') (dict_get_default a ''description'' '''')
             (dict_get_default a ''body'' '''')]"
    and l: "ledger_rows (snd (main e s)) = ledger_rows s"
    and b: "backups (snd (main e s)) = backups s"
    by (simp_all add: run_defs Let_def ledger_rows_def [of "_\<lparr>trace := _\<rparr>"])
  from m f l b show ?thesis by simp
qed

theorem generation_failure_aborts_witness:
  "select_new_articles sample_fromisoformat {} [article_a, article_b] = Inr [article_a] \<and>
   generate_linkedin_post (\<lambda>t d b ps. Inl LLMError) ''A'' ''about a'' ''text of a'' None
     = Inl PostGenerationError \<and>
   exit_code (fst (main (sample_env\<lparr>workflow_invoke := (\<lambda>t d b ps. Inl LLMError)\<rparr>)
                  empty_state)) = 1 \<and>
   filter is_post (effects (sample_env\<lparr>workflow_invoke := (\<lambda>t d b ps. Inl LLMError)\<rparr>)
                     empty_state) = [] \<and>
   ledger_rows (snd (main (sample_env\<lparr>workflow_invoke := (\<lambda>t d b ps. Inl LLMError)\<rparr>)
                       empty_state)) = []"
proof -
  let ?e = "sample_env\<lparr>workflow_invoke := (\<lambda>t d b ps. Inl LLMError)\<rparr>"
  have sel: "select_new_articles sample_fromisoformat {} [article_a, article_b] = Inr [article_a]"
    by (simp add: sample_defs select_defs)
  have gen: "generate_linkedin_post (\<lambda>t d b ps. Inl LLMError) ''A'' ''about a'' ''text of a'' None
      = Inl PostGenerationError"
    by (simp add: generate_defs)
  have r: "ledger_rows empty_state = []"
    by (simp add: ledger_rows_def empty_state_def)
  have 1: "LINKEDIN_ACCESS_TOKEN ?e = Some ''token''" and 2: "''token'' \<noteq> []"
    and 3: "ARTICLES_API_URL ?e = Some ''https://example.com/feed''"
    and 4: "''https://example.com/feed'' \<noteq> []"
    and 5: "get_articles ?e ''https://example.com/feed'' = Inr (Some [article_a, article_b])"
    and 7: "get_userinfo ?e ''token'' = Inr ''user1''"
    by (simp_all add: sample_env_def)
  have 6: "select_new_articles (fromisoformat ?e) (set (map row_url (ledger_rows empty_state)))
      (case Some [article_a, article_b] of None \<Rightarrow> [] | Some as \<Rightarrow> as) = Inr (article_a # [])"
    using sel by (simp add: r sample_env_def)
  have 8: "generate_linkedin_post (workflow_invoke ?e) (dict_get_default article_a ''title'' '''')
      (dict_get_default article_a ''description'' '''') (dict_get_default article_a ''body'' '''')
      None = Inl PostGenerationError"
    using gen by (simp add: sample_env_def article_a_def dict_get_default_def)
  from generation_failure_aborts [OF 1 2 3 4 5 6 7 8] sel gen show ?thesis
    by (simp add: r)
qed

text \<open>
  C5. In a run whose post is refused, the error leaves \<^verbatim>\<open>main\<close> (status 1), nothing is
  backed up or inserted, the rows of the ledger and the backups are what they were, and
  the same feed selects the same articles in the next run.
\<close>

theorem publish_failure_aborts:
  assumes "LINKEDIN_ACCESS_TOKEN e = Some tok" "tok \<noteq> []"
    and "ARTICLES_API_URL e = Some api" "api \<noteq> []"
    and "get_articles e api = Inr data"
    and "select_new_articles (fromisoformat e) (set (map row_url (ledger_rows s)))
           (case data of None \<Rightarrow> [] | Some as \<Rightarrow> as) = Inr (a # rest)"
    and "get_userinfo e tok = Inr uid"
    and "generate_linkedin_post (workflow_invoke e) (dict_get_default a ''title'' '''')
           (dict_get_default a ''description'' '''') (dict_get_default a ''body'' '''') None
           = Inr ptext"
    and "post_ugcPosts e tok uid ptext (dict_get_default a ''link'' '''') = Inl err"
  shows "fst (main e s) = Raise err \<and> exit_code (fst (main e s)) = 1 \<and>
         effects e s = [Http_get_articles api, Http_get_userinfo tok,
           Llm_invoke (dict_get_default a ''title'' '''') (dict_get_default a ''description'' '''')
             (dict_get_default a ''body'' ''''),
           Http_post_ugcPosts tok uid ptext (dict_get_default a ''link'' '''')] \<and>
         ledger_rows (snd (main e s)) = ledger_rows s \<and>
         backups (snd (main e s)) = backups s \<and>
         select_new_articles (fromisoformat e) (set (map row_url (ledger_rows (snd (main e s)))))
           (case data of None \<Rightarrow> [] | Some as \<Rightarrow> as) = Inr (a # rest)"
proof -
  from assms have m: "fst (main e s) = Raise err"
    and f: "effects e s = [Http_get_articles api, Http_get_userinfo tok,
           Llm_invoke (dict_get_default a ''title'' '''') (dict_get_default a ''description'' '''')
             (dict_get_default a ''body'' ''''),
           Http_post_ugcPosts tok uid ptext (dict_get_default a ''link'' '''')]"
    and l: "ledger_rows (snd (main e s)) = ledger_rows s"
    and b: "backups (snd (main e s)) = backups s"
    by (simp_all add: run_defs Let_def ledger_rows_def [of "_\<lparr>trace := _\<rparr>"])
  from m f l b assms(6) show ?thesis by simp
qed

theorem publish_failure_aborts_witness:
  "select_new_articles sample_fromisoformat {} [article_a, article_b] = Inr [article_a] \<and>
   fst (main (sample_env\<lparr>post_ugcPosts := (\<lambda>tok uid ptext u. Inl HTTPError)\<rparr>) empty_state)
     = Raise HTTPError \<and>
   exit_code (fst (main (sample_env\<lparr>post_ugcPosts := (\<lambda>tok uid ptext u. Inl HTTPError)\<rparr>)
                  empty_state)) = 1 \<and>
   ledger_rows (snd (main (sample_env\<lparr>post_ugcPosts := (\<lambda>tok uid ptext u. Inl HTTPError)\<rparr>)
                       empty_state)) = []"
proof -
  let ?e = "sample_env\<lparr>post_ugcPosts := (\<lambda>tok uid ptext u. Inl HTTPError)\<rparr>"
  have sel: "select_new_articles sample_fromisoformat {} [article_a, article_b] = Inr [article_a]"
    by (simp add: sample_defs select_defs)
  have r: "ledger_rows empty_state = []"
    by (simp add: ledger_rows_def empty_state_def)
  have 1: "LINKEDIN_ACCESS_TOKEN ?e = Some ''token''" and 2: "''token'' \<noteq> []"
    and 3: "ARTICLES_API_URL ?e = Some ''https://example.com/feed''"
    and 4: "''https://example.com/feed'' \<noteq> []"
    and 5: "get_articles ?e ''https://example.com/feed'' = Inr (Some [article_a, article_b])"
    and 7: "get_userinfo ?e ''token'' = Inr ''user1''"
    and 9: "post_ugcPosts ?e ''token'' ''user1'' sample_post
              (dict_get_default article_a ''link'' '''') = Inl HTTPError"
    by (simp_all add: sample_env_def)
  have 6: "select_new_articles (fromisoformat ?e) (set (map row_url (ledger_rows empty_state)))
      (case Some [article_a, article_b] of None \<Rightarrow> [] | Some as \<Rightarrow> as) = Inr (article_a # [])"
    using sel by (simp add: r sample_env_def)
  have 8: "generate_linkedin_post (workflow_invoke ?e) (dict_get_default article_a ''title'' '''')
      (dict_get_default article_a ''description'' '''') (dict_get_default article_a ''body'' '''')
      None = Inr sample_post"
    by (simp add: sample_env_def generate_defs sample_post_def)
  from publish_failure_aborts [OF 1 2 3 4 5 6 7 8 9] sel show ?thesis
    by (simp add: r)
qed

section \<open>Selection order and the single post (claim C6)\<close>

text \<open>
  C6. What the loop returns is the feed filtered by eligibility, so a subsequence of the
  feed in the feed's order. In every run, a post is for the first article of the selection:
  its link, and the text generated from it; and a run posts at most once. In a run whose
  selection is empty, \<^verbatim>\<open>main\<close> returns 0 after the fetch: nothing is posted, and the rows
  of the ledger and the backups are what they were.
\<close>

theorem first_eligible_only:
  "(select_new_articles parser known articles = Inr ys \<longrightarrow>
      ys = filter (eligible parser known) articles \<and> subseq ys articles) \<and>
   (Http_post_ugcPosts tok uid ptext u \<in> set (effects e s) \<longrightarrow>
      (\<exists>api data a rest.
          ARTICLES_API_URL e = Some api \<and> get_articles e api = Inr data \<and>
          select_new_articles (fromisoformat e) (set (map row_url (ledger_rows s)))
            (case data of None \<Rightarrow> [] | Some as \<Rightarrow> as) = Inr (a # rest) \<and>
          generate_linkedin_post (workflow_invoke e) (dict_get_default a ''title'' '''')
            (dict_get_default a ''description'' '''') (dict_get_default a ''body'' '''') None
            = Inr ptext \<and>
          u = dict_get_default a ''link'' '''')) \<and>
   length (filter is_post (effects e s)) \<le> 1 \<and>
   (LINKEDIN_ACCESS_TOKEN e = Some tok \<and> tok \<noteq> [] \<and>
    ARTICLES_API_URL e = Some api \<and> api \<noteq> [] \<and>
    get_articles e api = Inr data \<and>
    select_new_articles (fromisoformat e) (set (map row_url (ledger_rows s)))
      (case data of None \<Rightarrow> [] | Some as \<Rightarrow> as) = Inr [] \<longrightarrow>
      fst (main e s) = Return 0 \<and> exit_code (fst (main e s)) = 0 \<and>
      effects e s = [Http_get_articles api] \<and>
      ledger_rows (snd (main e s)) = ledger_rows s \<and>
      backups (snd (main e s)) = backups s)"
proof (intro conjI impI)
  assume "select_new_articles parser known articles = Inr ys"
  then show "ys = filter (eligible parser known) articles"
    by (rule select_new_articles_Inr)
  then show "subseq ys articles" by simp
next
  assume "Http_post_ugcPosts tok uid ptext u \<in> set (effects e s)"
  with effects_shape [of e s]
  show "\<exists>api data a rest.
          ARTICLES_API_URL e = Some api \<and> get_articles e api = Inr data \<and>
          select_new_articles (fromisoformat e) (set (map row_url (ledger_rows s)))
            (case data of None \<Rightarrow> [] | Some as \<Rightarrow> as) = Inr (a # rest) \<and>
          generate_linkedin_post (workflow_invoke e) (dict_get_default a ''title'' '''')
            (dict_get_default a ''description'' '''') (dict_get_default a ''body'' '''') None
            = Inr ptext \<and>
          u = dict_get_default a ''link'' ''''"
    by (elim disjE exE conjE) auto
next
  from effects_shape [of e s] show "length (filter is_post (effects e s)) \<le> 1"
    by (elim disjE exE conjE) auto
next
  assume h: "LINKEDIN_ACCESS_TOKEN e = Some tok \<and> tok \<noteq> [] \<and>
    ARTICLES_API_URL e = Some api \<and> api \<noteq> [] \<and>
    get_articles e api = Inr data \<and>
    select_new_articles (fromisoformat e) (set (map row_url (ledger_rows s)))
      (case data of None \<Rightarrow> [] | Some as \<Rightarrow> as) = Inr []"
  then show "fst (main e s) = Return 0" by (simp add: run_defs)
  then show "exit_code (fst (main e s)) = 0" by simp
  from h show "effects e s = [Http_get_articles api]" by (simp add: run_defs)
  from h show "ledger_rows (snd (main e s)) = ledger_rows s"
    by (simp add: run_defs ledger_rows_def [of "_\<lparr>trace := _\<rparr>"])
  from h show "backups (snd (main e s)) = backups s" by (simp add: run_defs)
qed

theorem first_eligible_only_witness:
  "select_new_articles sample_fromisoformat {} [article_b, article_a, article_b, article_a]
     = Inr [article_a, article_a] \<and>
   subseq [article_a, article_a] [article_b, article_a, article_b, article_a] \<and>
   Http_post_ugcPosts ''token'' ''user1'' sample_post ''https://example.com/a''
     \<in> set (effects sample_env empty_state) \<and>
   length (filter is_post (effects sample_env empty_state)) \<le> 1 \<and>
   select_new_articles sample_fromisoformat {} [article_b] = Inr [] \<and>
   exit_code (fst (main (sample_env\<lparr>get_articles := (\<lambda>api_url. Inr (Some [article_b]))\<rparr>)
                  empty_state)) = 0 \<and>
   effects (sample_env\<lparr>get_articles := (\<lambda>api_url. Inr (Some [article_b]))\<rparr>) empty_state
     = [Http_get_articles ''https://example.com/feed'']"
proof -
  let ?e = "sample_env\<lparr>get_articles := (\<lambda>api_url. Inr (Some [article_b]))\<rparr>"
  have sel: "select_new_articles sample_fromisoformat {}
      [article_b, article_a, article_b, article_a] = Inr [article_a, article_a]"
    by (simp add: sample_defs select_defs)
  have post: "Http_post_ugcPosts ''token'' ''user1'' sample_post ''https://example.com/a''
      \<in> set (effects sample_env empty_state)"
    by (simp add: sample_run)
  have none: "select_new_articles sample_fromisoformat {} [article_b] = Inr []"
    by (simp add: sample_defs select_defs)
  have r: "ledger_rows empty_state = []"
    by (simp add: ledger_rows_def empty_state_def)
  have hyp: "LINKEDIN_ACCESS_TOKEN ?e = Some ''token'' \<and> ''token'' \<noteq> [] \<and>
    ARTICLES_API_URL ?e = Some ''https://example.com/feed'' \<and>
    ''https://example.com/feed'' \<noteq> [] \<and>
    get_articles ?e ''https://example.com/feed'' = Inr (Some [article_b]) \<and>
    select_new_articles (fromisoformat ?e) (set (map row_url (ledger_rows empty_state)))
      (case Some [article_b] of None \<Rightarrow> [] | Some as \<Rightarrow> as) = Inr []"
    using none by (simp add: r sample_env_def)
  from first_eligible_only [of sample_fromisoformat "{}"
      "[article_b, article_a, article_b, article_a]" "[article_a, article_a]"
      "''token''" "''user1''" sample_post "''https://example.com/a''" sample_env empty_state
      "''https://example.com/feed''" "Some [article_b]"] sel
  have a: "subseq [article_a, article_a] [article_b, article_a, article_b, article_a]"
    and b: "length (filter is_post (effects sample_env empty_state)) \<le> 1"
    by blast+
  from first_eligible_only [of sample_fromisoformat "{}" "[article_b]" "[]"
      "''token''" "''user1''" sample_post "''https://example.com/a''" ?e empty_state
      "''https://example.com/feed''" "Some [article_b]"] hyp
  have c: "exit_code (fst (main ?e empty_state)) = 0"
    and d: "effects ?e empty_state = [Http_get_articles ''https://example.com/feed'']"
    by blast+
  from sel post none a b c d show ?thesis by simp
qed

section \<open>An article without link (claim C10)\<close>

text \<open>
  C10. An article without \<^verbatim>\<open>link\<close> never takes the known-url branch of the loop, whatever
  the ledger holds: only its date decides. In a run that selects such an article and
  posts it with answer \<open>r\<close>, the post carries the empty string as article url, and so does
  the row: when the ledger has no row with the empty url, the run adds one and returns 0;
  when it has one already, the insert raises IntegrityError after the post and the rows
  are what they were.
\<close>

theorem article_without_link:
  "(map_of a ''link'' = None \<longrightarrow>
      new_articles_loop parser known acc (a # articles) =
        (case parse_publish_date parser (dict_get_default a ''publishedAt'' '''') of
           None \<Rightarrow> new_articles_loop parser known acc articles
         | Some pub_date \<Rightarrow>
             (case datetime_ge pub_date MIN_PUBLISH_DATE of
                Inl err \<Rightarrow> Inl err
              | Inr keep \<Rightarrow>
                  new_articles_loop parser known (if keep then acc @ [a] else acc) articles))) \<and>
   (LINKEDIN_ACCESS_TOKEN e = Some tok \<and> tok \<noteq> [] \<and>
    ARTICLES_API_URL e = Some api \<and> api \<noteq> [] \<and>
    get_articles e api = Inr data \<and>
    select_new_articles (fromisoformat e) (set (map row_url (ledger_rows s)))
      (case data of None \<Rightarrow> [] | Some as \<Rightarrow> as) = Inr (a # rest) \<and>
    map_of a ''link'' = None \<and>
    get_userinfo e tok = Inr uid \<and>
    generate_linkedin_post (workflow_invoke e) (dict_get_default a ''title'' '''')
      (dict_get_default a ''description'' '''') (dict_get_default a ''body'' '''') None
      = Inr ptext \<and>
    post_ugcPosts e tok uid ptext '''' = Inr r \<longrightarrow>
      Http_post_ugcPosts tok uid ptext '''' \<in> set (effects e s) \<and>
      fst (main e s) =
        (if '''' \<in> set (map row_url (ledger_rows s)) then Raise IntegrityError else Return 0) \<and>
      db (snd (main e s)) =
        Some (if '''' \<in> set (map row_url (ledger_rows s)) then ledger_rows s
              else ledger_rows s @
                [\<lparr>row_id = Suc (fold max (map row_id (ledger_rows s)) 0), row_url = '''',
                  row_title = map_of a ''title'',
                  row_linkedin_post_id = dict_get_default r ''id'' '''',
                  row_published_at = sqlite_now e\<rparr>]))"
proof (intro conjI impI)
  assume "map_of a ''link'' = None"
  then show "new_articles_loop parser known acc (a # articles) =
        (case parse_publish_date parser (dict_get_default a ''publishedAt'' '''') of
           None \<Rightarrow> new_articles_loop parser known acc articles
         | Some pub_date \<Rightarrow>
             (case datetime_ge pub_date MIN_PUBLISH_DATE of
                Inl err \<Rightarrow> Inl err
              | Inr keep \<Rightarrow>
                  new_articles_loop parser known (if keep then acc @ [a] else acc) articles))"
    by simp
next
  assume h: "LINKEDIN_ACCESS_TOKEN e = Some tok \<and> tok \<noteq> [] \<and>
    ARTICLES_API_URL e = Some api \<and> api \<noteq> [] \<and>
    get_articles e api = Inr data \<and>
    select_new_articles (fromisoformat e) (set (map row_url (ledger_rows s)))
      (case data of None \<Rightarrow> [] | Some as \<Rightarrow> as) = Inr (a # rest) \<and>
    map_of a ''link'' = None \<and>
    get_userinfo e tok = Inr uid \<and>
    generate_linkedin_post (workflow_invoke e) (dict_get_default a ''title'' '''')
      (dict_get_default a ''description'' '''') (dict_get_default a ''body'' '''') None
      = Inr ptext \<and>
    post_ugcPosts e tok uid ptext '''' = Inr r"
  then have link: "dict_get_default a ''link'' '''' = ''''"
    by (simp add: dict_get_default_def)
  from h link have "effects e s =
      [Http_get_articles api, Http_get_userinfo tok,
       Llm_invoke (dict_get_default a ''title'' '''') (dict_get_default a ''description'' '''')
         (dict_get_default a ''body'' ''''),
       Http_post_ugcPosts tok uid ptext '''', Db_backup (backup_name (strftime_now e))]
      @ (if '''' \<in> set (map row_url (ledger_rows s)) then []
         else [Db_insert '''' (map_of a ''title'') (dict_get_default r ''id'' '''')])"
    by (simp add: run_defs Let_def)
  then show "Http_post_ugcPosts tok uid ptext '''' \<in> set (effects e s)" by simp
  from h link show "fst (main e s) =
        (if '''' \<in> set (map row_url (ledger_rows s)) then Raise IntegrityError else Return 0)"
    by (simp add: run_defs Let_def)
  from h link show "db (snd (main e s)) =
        Some (if '''' \<in> set (map row_url (ledger_rows s)) then ledger_rows s
              else ledger_rows s @
                [\<lparr>row_id = Suc (fold max (map row_id (ledger_rows s)) 0), row_url = '''',
                  row_title = map_of a ''title'',
                  row_linkedin_post_id = dict_get_default r ''id'' '''',
                  row_published_at = sqlite_now e\<rparr>])"
    by (simp add: run_defs Let_def)
qed

theorem article_without_link_witness:
  "map_of article_nolink ''link'' = None \<and>
   select_new_articles sample_fromisoformat {''''} [article_nolink] = Inr [article_nolink] \<and>
   Http_post_ugcPosts ''token'' ''user1'' sample_post ''''
     \<in> set (effects (sample_env\<lparr>get_articles := (\<lambda>api_url. Inr (Some [article_nolink]))\<rparr>)
              empty_state) \<and>
   fst (main (sample_env\<lparr>get_articles := (\<lambda>api_url. Inr (Some [article_nolink]))\<rparr>) empty_state)
     = Return 0 \<and>
   db (snd (main (sample_env\<lparr>get_articles := (\<lambda>api_url. Inr (Some [article_nolink]))\<rparr>)
              empty_state))
     = Some [\<lparr>row_id = 1, row_url = '''', row_title = Some ''L'', row_linkedin_post_id = ''p1'',
               row_published_at = ''2025-12-12 07:00:00''\<rparr>]"
proof -
  let ?e = "sample_env\<lparr>get_articles := (\<lambda>api_url. Inr (Some [article_nolink]))\<rparr>"
  have nolink: "map_of article_nolink ''link'' = None"
    by (simp add: article_nolink_def)
  have sel: "select_new_articles sample_fromisoformat {''''} [article_nolink]
      = Inr [article_nolink]"
    by (simp add: sample_defs select_defs)
  have sel0: "select_new_articles sample_fromisoformat {} [article_nolink] = Inr [article_nolink]"
    by (simp add: sample_defs select_defs)
  have r: "ledger_rows empty_state = []" "map_of article_nolink ''title'' = Some ''L''"
    "dict_get_default [(''id'', ''p1'')] ''id'' [] = ''p1''"
    "sqlite_now ?e = ''2025-12-12 07:00:00''"
    by (simp_all add: ledger_rows_def empty_state_def article_nolink_def dict_get_default_def
          sample_env_def)
  have hyp: "LINKEDIN_ACCESS_TOKEN ?e = Some ''token'' \<and> ''token'' \<noteq> [] \<and>
    ARTICLES_API_URL ?e = Some ''https://example.com/feed'' \<and>
    ''https://example.com/feed'' \<noteq> [] \<and>
    get_articles ?e ''https://example.com/feed'' = Inr (Some [article_nolink]) \<and>
    select_new_articles (fromisoformat ?e) (set (map row_url (ledger_rows empty_state)))
      (case Some [article_nolink] of None \<Rightarrow> [] | Some as \<Rightarrow> as) = Inr (article_nolink # []) \<and>
    map_of article_nolink ''link'' = None \<and>
    get_userinfo ?e ''token'' = Inr ''user1'' \<and>
    generate_linkedin_post (workflow_invoke ?e) (dict_get_default article_nolink ''title'' '''')
      (dict_get_default article_nolink ''description'' '''')
      (dict_get_default article_nolink ''body'' '''') None = Inr sample_post \<and>
    post_ugcPosts ?e ''token'' ''user1'' sample_post '''' = Inr [(''id'', ''p1'')]"
    using sel0 nolink by (simp add: r(1) sample_env_def generate_defs sample_post_def)
  from article_without_link [of article_nolink sample_fromisoformat "{''''}" "[]" "[]"
      ?e "''token''" "''https://example.com/feed''" "Some [article_nolink]" empty_state "[]"
      "''user1''" sample_post "[(''id'', ''p1'')]"] hyp
  have "Http_post_ugcPosts ''token'' ''user1'' sample_post '''' \<in> set (effects ?e empty_state)"
    and "fst (main ?e empty_state) =
        (if '''' \<in> set (map row_url (ledger_rows empty_state)) then Raise IntegrityError
         else Return 0)"
    and "db (snd (main ?e empty_state)) =
        Some (if '''' \<in> set (map row_url (ledger_rows empty_state)) then ledger_rows empty_state
              else ledger_rows empty_state @
                [\<lparr>row_id = Suc (fold max (map row_id (ledger_rows empty_state)) 0),
                  row_url = '''', row_title = map_of article_nolink ''title'',
                  row_linkedin_post_id = dict_get_default [(''id'', ''p1'')] ''id'' '''',
                  row_published_at = sqlite_now ?e\<rparr>])"
    by blast+
  then show ?thesis using nolink sel by (simp add: r)
qed

section \<open>Backup retention (claim C8)\<close>

lemma backup_name_less:
  assumes "length t1 = length t2" "t1 < t2"
  shows "backup_name t1 < backup_name t2"
proof -
  from assms(2) have "(t1, t2) \<in> lexord {(u, v). u < v}"
    by (simp add: list_less_def)
  with assms(1) have "(t1 @ ''.db'', t2 @ ''.db'') \<in> lexord {(u, v). u < v}"
    by (intro lexord_sufI) simp_all
  then have "(''published_'' @ t1 @ ''.db'', ''published_'' @ t2 @ ''.db'')
      \<in> lexord {(u, v). u < v}"
    by (subst lexord_same_pref_iff) simp
  then show ?thesis by (simp add: backup_name_def list_less_def)
qed

lemma glob_backup_name: "glob_published (backup_name t)"
  by (simp add: glob_published_def backup_name_def)

lemma update_fresh: "k \<notin> fst ` set al \<Longrightarrow> AList.update k v al = al @ [(k, v)]"
  by (induction al) auto

lemma fold_delete: "fold AList.delete ks al = filter (\<lambda>p. fst p \<notin> set ks) al"
proof (induction ks arbitrary: al)
  case Nil
  then show ?case by simp
next
  case (Cons k ks)
  have "fold AList.delete (k # ks) al = filter (\<lambda>p. fst p \<notin> set ks) (AList.delete k al)"
    by (simp add: Cons.IH)
  also have "AList.delete k al = filter (\<lambda>p. fst p \<noteq> k) al"
    by (induction al) auto
  finally show ?case by (simp add: conj_commute)
qed

lemma filter_take_keys:
  "distinct (map fst al) \<Longrightarrow>
     filter (\<lambda>p. fst p \<notin> set (take m (map fst al))) al = drop m al"
proof (induction al arbitrary: m)
  case Nil
  then show ?case by simp
next
  case (Cons p ps)
  show ?case
  proof (cases m)
    case 0
    then show ?thesis by simp
  next
    case (Suc m')
    from Cons.prems have d: "distinct (map fst ps)" by simp
    have n: "fst q \<noteq> fst p" if "q \<in> set ps" for q
    proof
      assume "fst q = fst p"
      with that have "fst p \<in> fst ` set ps" by (metis imageI)
      with Cons.prems show False by simp
    qed
    have "filter (\<lambda>q. fst q \<notin> set (take m (map fst (p # ps)))) (p # ps)
        = filter (\<lambda>q. fst q \<noteq> fst p \<and> fst q \<notin> set (take m' (map fst ps))) ps"
      by (simp add: Suc)
    also have "\<dots> = filter (\<lambda>q. fst q \<notin> set (take m' (map fst ps))) ps"
      by (intro filter_cong) (auto simp: n)
    also have "\<dots> = drop m' ps" by (rule Cons.IH [OF d])
    finally show ?thesis by (simp add: Suc)
  qed
qed

text \<open>One backup, taken when the directory holds the copies of the stamps \<open>ks\<close>.\<close>

lemma backup_db_step:
  assumes "db s = Some rows"
    and "backups s = map (\<lambda>x. (backup_name x, rows)) ks"
    and "sorted_wrt (<) (ks @ [t])"
    and "\<forall>x\<in>set (ks @ [t]). length x = n"
  shows "backups (backup_db t s) =
           map (\<lambda>x. (backup_name x, rows)) (drop (Suc (length ks) - 5) (ks @ [t]))"
proof -
  let ?g = "\<lambda>x. (backup_name x, rows)"
  let ?xs = "ks @ [t]"
  have less: "backup_name x < backup_name y"
    if "x \<in> set ?xs" "y \<in> set ?xs" "x < y" for x y
    using that assms(4) by (intro backup_name_less) auto
  from assms(3) have "sorted_wrt (\<lambda>x y. backup_name x < backup_name y) ?xs"
    by (rule sorted_wrt_mono_rel [rotated]) (rule less)
  then have strict: "sorted_wrt (<) (map backup_name ?xs)"
    by (simp only: sorted_wrt_map)
  then have srt: "sorted (map backup_name ?xs)" and dist: "distinct (map backup_name ?xs)"
    by (simp_all add: strict_sorted_iff)
  from dist have "backup_name t \<notin> fst ` set (map ?g ks)"
    by (auto simp: image_iff)
  then have copied: "AList.update (backup_name t) rows (map ?g ks) = map ?g ?xs"
    by (simp add: update_fresh)
  have keys: "map fst (map ?g ?xs) = map backup_name ?xs"
    by (simp add: comp_def)
  have found: "filter glob_published (map backup_name ?xs) = map backup_name ?xs"
    by (simp add: filter_id_conv glob_backup_name)
  have "backups (backup_db t s) =
      fold AList.delete (drop 5 (rev (sort (filter glob_published (map fst (map ?g ?xs))))))
        (map ?g ?xs)"
    using assms(1,2) copied by (simp add: backup_db_def Let_def)
  also have "\<dots> = fold AList.delete (drop 5 (rev (map backup_name ?xs))) (map ?g ?xs)"
    by (simp only: keys found sorted_sort_id [OF srt])
  also have "\<dots> = filter (\<lambda>p. fst p \<notin> set (take (length ?xs - 5) (map fst (map ?g ?xs))))
      (map ?g ?xs)"
    by (simp only: fold_delete drop_rev keys set_rev length_map)
  also have "\<dots> = drop (length ?xs - 5) (map ?g ?xs)"
    using dist by (intro filter_take_keys) (simp only: keys)
  finally show ?thesis by (simp add: drop_map)
qed

lemma backup_db_fold:
  assumes "db s = Some rows"
    and "backups s = []"
    and "sorted_wrt (<) stamps"
    and "\<forall>x\<in>set stamps. length x = n"
  shows "db (fold backup_db stamps s) = Some rows \<and>
         backups (fold backup_db stamps s) =
           map (\<lambda>x. (backup_name x, rows)) (drop (length stamps - 5) stamps)"
  using assms(3,4)
proof (induction stamps rule: rev_induct)
  case Nil
  with assms(1,2) show ?case by simp
next
  case (snoc t ts)
  let ?s = "fold backup_db ts s"
  let ?ks = "drop (length ts - 5) ts"
  from snoc.prems have "sorted_wrt (<) ts" and "\<forall>x\<in>set ts. length x = n"
    by (simp_all add: sorted_wrt_append)
  with snoc.IH have d: "db ?s = Some rows"
    and b: "backups ?s = map (\<lambda>x. (backup_name x, rows)) ?ks"
    by simp_all
  have "?ks @ [t] = drop (length ts - 5) (ts @ [t])" by simp
  with snoc.prems(1) have srt: "sorted_wrt (<) (?ks @ [t])"
    by (metis sorted_wrt_drop)
  from snoc.prems(2) have len: "\<forall>x\<in>set (?ks @ [t]). length x = n"
    by (auto dest: in_set_dropD)
  have "backups (backup_db t ?s) =
      map (\<lambda>x. (backup_name x, rows)) (drop (Suc (length ?ks) - 5) (?ks @ [t]))"
    using d b srt len by (rule backup_db_step)
  also have "drop (Suc (length ?ks) - 5) (?ks @ [t]) = drop (length (ts @ [t]) - 5) (ts @ [t])"
  proof (cases "length ts \<le> 4")
    case True
    then show ?thesis by simp
  next
    case False
    then have "Suc (length ts - 5) = length ts - 4" by arith
    with False show ?thesis by simp
  qed
  finally show ?case using d by simp
qed

text \<open>
  C8, as claimed: after every backup the directory holds min(5, number of backups taken)
  copies. The file name has the second of the clock in it, so two backups taken within one
  second write the same file: after two backups the directory holds one copy, not two.
\<close>

theorem backup_retention_same_second:
  "db (init_db empty_state) = Some [] \<and>
   backups (fold backup_db [''20251212_080000'', ''20251212_080000''] (init_db empty_state))
     = [(''published_20251212_080000.db'', [])] \<and>
   length (backups (fold backup_db [''20251212_080000'', ''20251212_080000'']
                      (init_db empty_state)))
     \<noteq> min 5 (length [''20251212_080000'', ''20251212_080000''])"
  by (simp add: init_db_def empty_state_def backup_db_def backup_name_def glob_published_def
        Let_def)

text \<open>
  C8, amended: starting from an empty backup directory and with the ledger file present,
  when the stamps of the backups (fifteen characters each, as \<^verbatim>\<open>%Y%m%d_%H%M%S\<close> gives for
  a four-digit year) strictly increase, then after each call, that is after the first \<open>k\<close>
  of them for every \<open>k\<close>, the directory holds exactly the copies of the last five stamps so
  far, each a copy of the ledger: min(5, number of backups taken) files, the older ones
  deleted.
\<close>

theorem backup_retention:
  assumes "db s = Some rows"
    and "backups s = []"
    and "sorted_wrt (<) stamps"
    and "\<forall>x\<in>set stamps. length x = 15"
  shows "backups (fold backup_db (take k stamps) s) =
           map (\<lambda>x. (backup_name x, rows))
             (drop (length (take k stamps) - 5) (take k stamps)) \<and>
         length (backups (fold backup_db (take k stamps) s)) = min 5 (length (take k stamps))"
proof -
  from assms(3) have "sorted_wrt (<) (take k stamps)"
    by (rule sorted_wrt_take)
  moreover from assms(4) have "\<forall>x\<in>set (take k stamps). length x = 15"
    by (auto dest: in_set_takeD)
  ultimately have "backups (fold backup_db (take k stamps) s) =
      map (\<lambda>x. (backup_name x, rows)) (drop (length (take k stamps) - 5) (take k stamps))"
    using backup_db_fold [OF assms(1,2)] by blast
  then show ?thesis by (simp add: min_def)
qed

theorem backup_retention_witness:
  "sorted_wrt (<) [''20251212_080000'', ''20251213_080000'', ''20251214_075959'',
     ''20251215_080000'', ''20251216_080000'', ''20260101_000000'', ''20260102_000000''] \<and>
   backups (fold backup_db
      [''20251212_080000'', ''20251213_080000'', ''20251214_075959'', ''20251215_080000'',
       ''20251216_080000'', ''20260101_000000'', ''20260102_000000''] (init_db empty_state))
   = [(''published_20251214_075959.db'', []), (''published_20251215_080000.db'', []),
      (''published_20251216_080000.db'', []), (''published_20260101_000000.db'', []),
      (''published_20260102_000000.db'', [])]"
proof -
  let ?stamps = "[''20251212_080000'', ''20251213_080000'', ''20251214_075959'',
     ''20251215_080000'', ''20251216_080000'', ''20260101_000000'', ''20260102_000000'']"
  have 1: "db (init_db empty_state) = Some []"
    by (simp add: init_db_def empty_state_def)
  have 2: "backups (init_db empty_state) = []"
    by (simp add: init_db_def empty_state_def)
  have 3: "sorted_wrt (<) ?stamps"
    by (simp add: less_list_code)
  have 4: "\<forall>x\<in>set ?stamps. length x = 15" by simp
  from backup_retention [OF 1 2 3 4, of 7] 3 show ?thesis
    by (simp add: backup_name_def)
qed

end
